theory Spec2Isabelle
  imports Main
begin

section \<open>Python strings and built-in operations\<close>

text \<open>
  A Python \<open>str\<close> is a sequence of Unicode code points, and \<open>len\<close> counts code points.
  A character is modelled by its code point, a string by the list of its code points.
  String literals of the source are written as HOL literals and converted by \<open>pystr_of\<close>.
\<close>

type_synonym pychar = nat
type_synonym pystr = "pychar list"

definition code_point :: "char \<Rightarrow> pychar" where
  "code_point ch = of_char ch"

definition pystr_of :: "string \<Rightarrow> pystr" where
  "pystr_of s = map code_point s"

text \<open>
  \<open>str.islower\<close> and \<open>str.isupper\<close> on a one-character string consult the Unicode
  database of the interpreter, which is not part of the repository. Inside ASCII the
  answer is fixed (exactly \<open>a\<close>--\<open>z\<close> are lowercase and exactly \<open>A\<close>--\<open>Z\<close> are uppercase);
  outside ASCII the database is a parameter of the model.
\<close>

record unicode_db =
  Lowercase :: "pychar \<Rightarrow> bool"
  Uppercase :: "pychar \<Rightarrow> bool"

definition islower :: "unicode_db \<Rightarrow> pychar \<Rightarrow> bool" where
  "islower db c = (if c < 128 then 97 \<le> c \<and> c \<le> 122 else Lowercase db c)"

definition isupper :: "unicode_db \<Rightarrow> pychar \<Rightarrow> bool" where
  "isupper db c = (if c < 128 then 65 \<le> c \<and> c \<le> 90 else Uppercase db c)"

text \<open>The exceptions that the built-in operations used by the source can raise.\<close>

datatype error = ValueError string | IndexError | ZeroDivisionError

definition bind_result :: "error + 'a \<Rightarrow> ('a \<Rightarrow> error + 'b) \<Rightarrow> error + 'b" where
  "bind_result r f = (case r of Inl e \<Rightarrow> Inl e | Inr v \<Rightarrow> f v)"

text \<open>\<open>alphabet.index(c)\<close>: position of the first occurrence, \<open>ValueError\<close> when absent.\<close>

fun first_position :: "pystr \<Rightarrow> pychar \<Rightarrow> nat" where
  "first_position [] c = 0"
| "first_position (x # xs) c = (if x = c then 0 else Suc (first_position xs c))"

definition index :: "pystr \<Rightarrow> pychar \<Rightarrow> error + nat" where
  "index s c =
     (if c \<in> set s then Inr (first_position s c)
      else Inl (ValueError ''substring not found''))"

text \<open>\<open>a % b\<close> on Python integers: floored, \<open>ZeroDivisionError\<close> for \<open>b = 0\<close>.\<close>

definition py_mod :: "int \<Rightarrow> int \<Rightarrow> error + int" where
  "py_mod a b = (if b = 0 then Inl ZeroDivisionError else Inr (a mod b))"

text \<open>
  \<open>s[i]\<close>: an index \<open>i\<close> below zero reads position \<open>len(s) + i\<close>; outside both
  ranges the read raises \<open>IndexError\<close>.
\<close>

definition getitem :: "pystr \<Rightarrow> int \<Rightarrow> error + pychar" where
  "getitem s i =
     (if 0 \<le> i \<and> i < int (length s) then Inr (s ! nat i)
      else if i < 0 \<and> - int (length s) \<le> i then Inr (s ! nat (int (length s) + i))
      else Inl IndexError)"

section \<open>The cipher of \<open>encrypt.py\<close>\<close>

definition ALPHA_LOWER :: pystr where
  "ALPHA_LOWER = pystr_of ''abcdefghijklmnopqrstuvwxyz''"

definition ALPHA_UPPER :: pystr where
  "ALPHA_UPPER = pystr_of ''ABCDEFGHIJKLMNOPQRSTUVWXYZ''"

definition LOWER_FIRST :: "pychar set" where
  "LOWER_FIRST = set (pystr_of ''abcdefghijklm'')"

definition LOWER_SECOND :: "pychar set" where
  "LOWER_SECOND = set (pystr_of ''nopqrstuvwxyz'')"

definition UPPER_FIRST :: "pychar set" where
  "UPPER_FIRST = set (pystr_of ''ABCDEFGHIJKLM'')"

definition UPPER_SECOND :: "pychar set" where
  "UPPER_SECOND = set (pystr_of ''NOPQRSTUVWXYZ'')"

definition shift_char :: "pychar \<Rightarrow> int \<Rightarrow> pystr \<Rightarrow> error + pychar" where
  "shift_char c shift alphabet =
     (if c \<notin> set alphabet then Inr c
      else
        let n = int (length alphabet) in
        bind_result (index alphabet c) (\<lambda>idx.
        bind_result (py_mod (int idx + shift) n) (\<lambda>k.
        getitem alphabet k)))"

definition encrypt_char :: "unicode_db \<Rightarrow> pychar \<Rightarrow> int \<Rightarrow> int \<Rightarrow> error + pychar" where
  "encrypt_char db c shift1 shift2 =
     (if islower db c then
        if c \<in> LOWER_FIRST then shift_char c (shift1 * shift2) ALPHA_LOWER
        else if c \<in> LOWER_SECOND then shift_char c (- (shift1 + shift2)) ALPHA_LOWER
        else Inr c
      else if isupper db c then
        if c \<in> UPPER_FIRST then shift_char c (- shift1) ALPHA_UPPER
        else if c \<in> UPPER_SECOND then shift_char c (shift2 ^ 2) ALPHA_UPPER
        else Inr c
      else Inr c)"

definition decrypt_char :: "unicode_db \<Rightarrow> pychar \<Rightarrow> int \<Rightarrow> int \<Rightarrow> error + pychar" where
  "decrypt_char db c shift1 shift2 =
     (if islower db c then
        bind_result (shift_char c (- (shift1 * shift2)) ALPHA_LOWER) (\<lambda>cand1.
        if cand1 \<in> LOWER_FIRST then Inr cand1
        else
          bind_result (shift_char c (shift1 + shift2) ALPHA_LOWER) (\<lambda>cand2.
          Inr cand2))
      else if isupper db c then
        bind_result (shift_char c shift1 ALPHA_UPPER) (\<lambda>cand1.
        if cand1 \<in> UPPER_FIRST then Inr cand1
        else
          bind_result (shift_char c (- (shift2 ^ 2)) ALPHA_UPPER) (\<lambda>cand2.
          Inr cand2))
      else Inr c)"

text \<open>
  \<open>"".join(f(c) for c in text)\<close>: the generator is consumed from left to right, the
  one-character results are concatenated, and the first exception ends the call.
\<close>

fun join_each :: "(pychar \<Rightarrow> error + pychar) \<Rightarrow> pystr \<Rightarrow> error + pystr" where
  "join_each f [] = Inr []"
| "join_each f (c # cs) =
     bind_result (f c) (\<lambda>y.
     bind_result (join_each f cs) (\<lambda>ys.
     Inr (y # ys)))"

definition encrypt_text :: "unicode_db \<Rightarrow> pystr \<Rightarrow> int \<Rightarrow> int \<Rightarrow> error + pystr" where
  "encrypt_text db text shift1 shift2 = join_each (\<lambda>c. encrypt_char db c shift1 shift2) text"

definition decrypt_text :: "unicode_db \<Rightarrow> pystr \<Rightarrow> int \<Rightarrow> int \<Rightarrow> error + pystr" where
  "decrypt_text db text shift1 shift2 = join_each (\<lambda>c. decrypt_char db c shift1 shift2) text"

text \<open>
  The body of the loop of \<open>encrypt_text_with_meta\<close>: the state is the pair of the lists
  \<open>encrypted_chars\<close> and \<open>meta_chars\<close>, and every branch appends one element to each.
\<close>

definition append_both ::
  "pystr \<times> pystr \<Rightarrow> error + pychar \<Rightarrow> char \<Rightarrow> error + pystr \<times> pystr" where
  "append_both st r m =
     bind_result r (\<lambda>e. Inr (fst st @ [e], snd st @ [code_point m]))"

definition encrypt_meta_step ::
  "unicode_db \<Rightarrow> int \<Rightarrow> int \<Rightarrow> pystr \<times> pystr \<Rightarrow> pychar \<Rightarrow> error + pystr \<times> pystr" where
  "encrypt_meta_step db shift1 shift2 st c =
     (if islower db c then
        if c \<in> LOWER_FIRST then
          append_both st (shift_char c (shift1 * shift2) ALPHA_LOWER) CHR ''l''
        else if c \<in> LOWER_SECOND then
          append_both st (shift_char c (- (shift1 + shift2)) ALPHA_LOWER) CHR ''L''
        else append_both st (Inr c) CHR ''0''
      else if isupper db c then
        if c \<in> UPPER_FIRST then
          append_both st (shift_char c (- shift1) ALPHA_UPPER) CHR ''u''
        else if c \<in> UPPER_SECOND then
          append_both st (shift_char c (shift2 ^ 2) ALPHA_UPPER) CHR ''U''
        else append_both st (Inr c) CHR ''0''
      else append_both st (Inr c) CHR ''0'')"

fun encrypt_meta_loop ::
  "unicode_db \<Rightarrow> int \<Rightarrow> int \<Rightarrow> pystr \<times> pystr \<Rightarrow> pystr \<Rightarrow> error + pystr \<times> pystr" where
  "encrypt_meta_loop db shift1 shift2 st [] = Inr st"
| "encrypt_meta_loop db shift1 shift2 st (c # cs) =
     bind_result (encrypt_meta_step db shift1 shift2 st c) (\<lambda>st'.
     encrypt_meta_loop db shift1 shift2 st' cs)"

definition encrypt_text_with_meta ::
  "unicode_db \<Rightarrow> pystr \<Rightarrow> int \<Rightarrow> int \<Rightarrow> error + pystr \<times> pystr" where
  "encrypt_text_with_meta db text shift1 shift2 =
     encrypt_meta_loop db shift1 shift2 ([], []) text"

text \<open>
  The loop of \<open>decrypt_text_with_meta\<close> over \<open>zip(ciphertext, metadata)\<close>; the state is
  the list \<open>result_chars\<close>. The dispatch is on the metadata code alone.
\<close>

definition decrypt_meta_step ::
  "int \<Rightarrow> int \<Rightarrow> pystr \<Rightarrow> pychar \<times> pychar \<Rightarrow> error + pystr" where
  "decrypt_meta_step shift1 shift2 result_chars cm =
     (let c = fst cm; m = snd cm in
      bind_result
        (if m = code_point CHR ''l'' then shift_char c (- (shift1 * shift2)) ALPHA_LOWER
         else if m = code_point CHR ''L'' then shift_char c (shift1 + shift2) ALPHA_LOWER
         else if m = code_point CHR ''u'' then shift_char c shift1 ALPHA_UPPER
         else if m = code_point CHR ''U'' then shift_char c (- (shift2 ^ 2)) ALPHA_UPPER
         else Inr c)
        (\<lambda>r. Inr (result_chars @ [r])))"

fun decrypt_meta_loop ::
  "int \<Rightarrow> int \<Rightarrow> pystr \<Rightarrow> (pychar \<times> pychar) list \<Rightarrow> error + pystr" where
  "decrypt_meta_loop shift1 shift2 result_chars [] = Inr result_chars"
| "decrypt_meta_loop shift1 shift2 result_chars (cm # cms) =
     bind_result (decrypt_meta_step shift1 shift2 result_chars cm) (\<lambda>result_chars'.
     decrypt_meta_loop shift1 shift2 result_chars' cms)"

definition decrypt_text_with_meta :: "pystr \<Rightarrow> pystr \<Rightarrow> int \<Rightarrow> int \<Rightarrow> error + pystr" where
  "decrypt_text_with_meta ciphertext metadata shift1 shift2 =
     (if length ciphertext \<noteq> length metadata then
        Inl (ValueError ''Ciphertext and metadata lengths do not match'')
      else decrypt_meta_loop shift1 shift2 [] (zip ciphertext metadata))"

section \<open>Closed forms of the character functions\<close>

text \<open>
  The definitions of this section are not part of the program. They describe, by
  arithmetic on code points, what the functions above compute, and the lemmas of the
  next section prove that the program computes exactly these values and raises none
  of the exceptions of its built-in operations.

  \<open>rotate base c k\<close> is the letter \<open>k\<close> places after \<open>c\<close> in the alphabet of 26 letters
  that starts at the code point \<open>base\<close>, wrapping around.
\<close>

definition rotate :: "nat \<Rightarrow> pychar \<Rightarrow> int \<Rightarrow> pychar" where
  "rotate base c k = base + nat ((int (c - base) + k) mod 26)"

definition shift_closed :: "nat \<Rightarrow> pychar \<Rightarrow> int \<Rightarrow> pychar" where
  "shift_closed base c k = (if base \<le> c \<and> c < base + 26 then rotate base c k else c)"

definition encrypt_closed :: "pychar \<Rightarrow> int \<Rightarrow> int \<Rightarrow> pychar" where
  "encrypt_closed c s1 s2 =
     (if 97 \<le> c \<and> c < 110 then rotate 97 c (s1 * s2)
      else if 110 \<le> c \<and> c < 123 then rotate 97 c (- (s1 + s2))
      else if 65 \<le> c \<and> c < 78 then rotate 65 c (- s1)
      else if 78 \<le> c \<and> c < 91 then rotate 65 c (s2 ^ 2)
      else c)"

definition meta_closed :: "pychar \<Rightarrow> pychar" where
  "meta_closed c =
     (if 97 \<le> c \<and> c < 110 then code_point CHR ''l''
      else if 110 \<le> c \<and> c < 123 then code_point CHR ''L''
      else if 65 \<le> c \<and> c < 78 then code_point CHR ''u''
      else if 78 \<le> c \<and> c < 91 then code_point CHR ''U''
      else code_point CHR ''0'')"

definition decrypt_meta_closed :: "int \<Rightarrow> int \<Rightarrow> pychar \<times> pychar \<Rightarrow> pychar" where
  "decrypt_meta_closed s1 s2 cm =
     (if snd cm = code_point CHR ''l'' then shift_closed 97 (fst cm) (- (s1 * s2))
      else if snd cm = code_point CHR ''L'' then shift_closed 97 (fst cm) (s1 + s2)
      else if snd cm = code_point CHR ''u'' then shift_closed 65 (fst cm) s1
      else if snd cm = code_point CHR ''U'' then shift_closed 65 (fst cm) (- (s2 ^ 2))
      else fst cm)"

definition decrypt_closed :: "pychar \<Rightarrow> int \<Rightarrow> int \<Rightarrow> pychar" where
  "decrypt_closed c s1 s2 =
     (if 97 \<le> c \<and> c < 123 then
        if rotate 97 c (- (s1 * s2)) < 110 then rotate 97 c (- (s1 * s2))
        else rotate 97 c (s1 + s2)
      else if 65 \<le> c \<and> c < 91 then
        if rotate 65 c s1 < 78 then rotate 65 c s1
        else rotate 65 c (- (s2 ^ 2))
      else c)"

text \<open>
  A concrete database for evaluating the program on given inputs: it has no cased
  character outside ASCII.
\<close>

definition ascii_db :: unicode_db where
  "ascii_db = \<lparr>Lowercase = (\<lambda>c. False), Uppercase = (\<lambda>c. False)\<rparr>"

text \<open>
  A second concrete database, in which the code points 233 and 201 (the letter e with
  acute accent, small and capital) are cased characters outside ASCII.
\<close>

definition latin1_db :: unicode_db where
  "latin1_db = \<lparr>Lowercase = (\<lambda>c. c = 233), Uppercase = (\<lambda>c. c = 201)\<rparr>"

section \<open>The program computes the closed forms\<close>

lemma rotate_range: "base \<le> rotate base c k \<and> rotate base c k < base + 26"
  unfolding rotate_def
  by (simp add: nat_less_iff)

lemma rotate_inverse:
  assumes "base \<le> c" "c < base + 26"
  shows "rotate base (rotate base c k) (- k) = c"
proof -
  have "(((int (c - base) + k) mod 26) + (- k)) mod 26 = int (c - base) mod 26"
    by (simp add: mod_diff_left_eq)
  also have "\<dots> = int (c - base)" using assms by simp
  finally show ?thesis using assms by (simp add: rotate_def)
qed

lemma rotate_inverse':
  assumes "base \<le> c" "c < base + 26"
  shows "rotate base (rotate base c (- k)) k = c"
  using rotate_inverse [OF assms, of "- k"] by simp

lemma first_position_upt: "a \<le> c \<Longrightarrow> c < b \<Longrightarrow> first_position [a..<b] c = c - a"
proof (induction "c - a" arbitrary: a)
  case 0
  then show ?case by (simp add: upt_rec)
next
  case (Suc d)
  then have "a < c" "a < b" by simp_all
  moreover have "first_position [Suc a..<b] c = c - Suc a"
    using Suc by simp
  ultimately show ?case by (simp add: upt_rec [of a b])
qed

lemma shift_char_upt:
  "shift_char c k [a..<a + 26] = Inr (if a \<le> c \<and> c < a + 26 then rotate a c k else c)"
proof (cases "a \<le> c \<and> c < a + 26")
  case True
  have "nat ((int (c - a) + k) mod 26) < 26" by (simp add: nat_less_iff)
  then show ?thesis using True
    by (simp add: shift_char_def index_def py_mod_def getitem_def bind_result_def
        first_position_upt rotate_def)
next
  case False
  then show ?thesis by (auto simp add: shift_char_def)
qed

lemma ALPHA_LOWER_upt: "ALPHA_LOWER = [97..<97 + 26]"
  by (simp add: ALPHA_LOWER_def pystr_of_def code_point_def upt_rec)

lemma ALPHA_UPPER_upt: "ALPHA_UPPER = [65..<65 + 26]"
  by (simp add: ALPHA_UPPER_def pystr_of_def code_point_def upt_rec)

lemma shift_char_lower:
  "shift_char c k ALPHA_LOWER = Inr (if 97 \<le> c \<and> c < 123 then rotate 97 c k else c)"
  unfolding ALPHA_LOWER_upt using shift_char_upt [of c k 97] by simp

lemma shift_char_upper:
  "shift_char c k ALPHA_UPPER = Inr (if 65 \<le> c \<and> c < 91 then rotate 65 c k else c)"
  unfolding ALPHA_UPPER_upt using shift_char_upt [of c k 65] by simp

lemma LOWER_FIRST_iff: "c \<in> LOWER_FIRST \<longleftrightarrow> 97 \<le> c \<and> c < 110"
proof -
  have "pystr_of ''abcdefghijklm'' = [97..<110]"
    by (simp add: pystr_of_def code_point_def upt_rec)
  then show ?thesis unfolding LOWER_FIRST_def by (simp only: set_upt atLeastLessThan_iff)
qed

lemma LOWER_SECOND_iff: "c \<in> LOWER_SECOND \<longleftrightarrow> 110 \<le> c \<and> c < 123"
proof -
  have "pystr_of ''nopqrstuvwxyz'' = [110..<123]"
    by (simp add: pystr_of_def code_point_def upt_rec)
  then show ?thesis unfolding LOWER_SECOND_def by (simp only: set_upt atLeastLessThan_iff)
qed

lemma UPPER_FIRST_iff: "c \<in> UPPER_FIRST \<longleftrightarrow> 65 \<le> c \<and> c < 78"
proof -
  have "pystr_of ''ABCDEFGHIJKLM'' = [65..<78]"
    by (simp add: pystr_of_def code_point_def upt_rec)
  then show ?thesis unfolding UPPER_FIRST_def by (simp only: set_upt atLeastLessThan_iff)
qed

lemma UPPER_SECOND_iff: "c \<in> UPPER_SECOND \<longleftrightarrow> 78 \<le> c \<and> c < 91"
proof -
  have "pystr_of ''NOPQRSTUVWXYZ'' = [78..<91]"
    by (simp add: pystr_of_def code_point_def upt_rec)
  then show ?thesis unfolding UPPER_SECOND_def by (simp only: set_upt atLeastLessThan_iff)
qed

lemma shift_char_lower_closed: "shift_char c k ALPHA_LOWER = Inr (shift_closed 97 c k)"
  by (simp add: shift_char_lower shift_closed_def)

lemma shift_char_upper_closed: "shift_char c k ALPHA_UPPER = Inr (shift_closed 65 c k)"
  by (simp add: shift_char_upper shift_closed_def)

lemma encrypt_char_closed: "encrypt_char db c s1 s2 = Inr (encrypt_closed c s1 s2)"
  by (simp add: encrypt_char_def encrypt_closed_def islower_def isupper_def
      LOWER_FIRST_iff LOWER_SECOND_iff UPPER_FIRST_iff UPPER_SECOND_iff
      shift_char_lower shift_char_upper)

lemma decrypt_char_closed: "decrypt_char db c s1 s2 = Inr (decrypt_closed c s1 s2)"
proof -
  have lo: "97 \<le> rotate 97 c k" and up: "65 \<le> rotate 65 c k" for k
    using rotate_range [of 97 c k] rotate_range [of 65 c k] by simp_all
  show ?thesis
    by (auto simp add: decrypt_char_def decrypt_closed_def islower_def isupper_def
      LOWER_FIRST_iff UPPER_FIRST_iff shift_char_lower shift_char_upper bind_result_def lo up)
qed

lemma encrypt_meta_step_closed:
  "encrypt_meta_step db s1 s2 st c =
     Inr (fst st @ [encrypt_closed c s1 s2], snd st @ [meta_closed c])"
  by (simp add: encrypt_meta_step_def append_both_def bind_result_def
      encrypt_closed_def meta_closed_def islower_def isupper_def
      LOWER_FIRST_iff LOWER_SECOND_iff UPPER_FIRST_iff UPPER_SECOND_iff
      shift_char_lower shift_char_upper)

lemma encrypt_meta_loop_closed:
  "encrypt_meta_loop db s1 s2 st plain =
     Inr (fst st @ map (\<lambda>c. encrypt_closed c s1 s2) plain, snd st @ map meta_closed plain)"
  by (induction plain arbitrary: st) (simp_all add: encrypt_meta_step_closed bind_result_def)

lemma encrypt_text_with_meta_closed:
  "encrypt_text_with_meta db plain s1 s2 =
     Inr (map (\<lambda>c. encrypt_closed c s1 s2) plain, map meta_closed plain)"
  by (simp add: encrypt_text_with_meta_def encrypt_meta_loop_closed)

lemma join_each_closed:
  assumes "\<And>c. f c = Inr (g c)"
  shows "join_each f cs = Inr (map g cs)"
  by (induction cs) (simp_all add: assms bind_result_def)

lemma encrypt_text_closed:
  "encrypt_text db plain s1 s2 = Inr (map (\<lambda>c. encrypt_closed c s1 s2) plain)"
  unfolding encrypt_text_def by (rule join_each_closed) (rule encrypt_char_closed)

lemma decrypt_text_closed:
  "decrypt_text db plain s1 s2 = Inr (map (\<lambda>c. decrypt_closed c s1 s2) plain)"
  unfolding decrypt_text_def by (rule join_each_closed) (rule decrypt_char_closed)

lemma decrypt_meta_step_closed:
  "decrypt_meta_step s1 s2 acc cm = Inr (acc @ [decrypt_meta_closed s1 s2 cm])"
  by (simp add: decrypt_meta_step_def decrypt_meta_closed_def bind_result_def Let_def
      shift_char_lower_closed shift_char_upper_closed)

lemma decrypt_meta_loop_closed:
  "decrypt_meta_loop s1 s2 acc cms = Inr (acc @ map (decrypt_meta_closed s1 s2) cms)"
  by (induction cms arbitrary: acc) (simp_all add: decrypt_meta_step_closed bind_result_def)

lemma decrypt_text_with_meta_closed:
  "length ct = length md \<Longrightarrow>
   decrypt_text_with_meta ct md s1 s2 = Inr (map (decrypt_meta_closed s1 s2) (zip ct md))"
  by (simp add: decrypt_text_with_meta_def decrypt_meta_loop_closed)

lemma decrypt_meta_encrypt_closed:
  "decrypt_meta_closed s1 s2 (encrypt_closed c s1 s2, meta_closed c) = c"
proof -
  have r: "b \<le> rotate b c k \<and> rotate b c k < b + 26" for b k
    by (rule rotate_range)
  consider (lower_first) "97 \<le> c" "c < 110" | (lower_second) "110 \<le> c" "c < 123"
    | (upper_first) "65 \<le> c" "c < 78" | (upper_second) "78 \<le> c" "c < 91"
    | (other) "c < 65 \<or> (91 \<le> c \<and> c < 97) \<or> 123 \<le> c"
    by linarith
  then show ?thesis
  proof cases
    case lower_first
    then have "encrypt_closed c s1 s2 = rotate 97 c (s1 * s2)"
      and "meta_closed c = code_point CHR ''l''"
      by (simp_all add: encrypt_closed_def meta_closed_def)
    then show ?thesis
      using lower_first r [of 97 "s1 * s2"] rotate_inverse [of 97 c "s1 * s2"]
      by (simp add: decrypt_meta_closed_def shift_closed_def)
  next
    case lower_second
    then have "encrypt_closed c s1 s2 = rotate 97 c (- (s1 + s2))"
      and "meta_closed c = code_point CHR ''L''"
      by (simp_all add: encrypt_closed_def meta_closed_def)
    then show ?thesis
      using lower_second r [of 97 "- (s1 + s2)"] rotate_inverse' [of 97 c "s1 + s2"]
      by (simp add: decrypt_meta_closed_def shift_closed_def code_point_def)
  next
    case upper_first
    then have "encrypt_closed c s1 s2 = rotate 65 c (- s1)"
      and "meta_closed c = code_point CHR ''u''"
      by (simp_all add: encrypt_closed_def meta_closed_def)
    then show ?thesis
      using upper_first r [of 65 "- s1"] rotate_inverse' [of 65 c s1]
      by (simp add: decrypt_meta_closed_def shift_closed_def code_point_def)
  next
    case upper_second
    then have "encrypt_closed c s1 s2 = rotate 65 c (s2 ^ 2)"
      and "meta_closed c = code_point CHR ''U''"
      by (simp_all add: encrypt_closed_def meta_closed_def)
    then show ?thesis
      using upper_second r [of 65 "s2 ^ 2"] rotate_inverse [of 65 c "s2 ^ 2"]
      by (simp add: decrypt_meta_closed_def shift_closed_def code_point_def)
  next
    case other
    then have "encrypt_closed c s1 s2 = c" and "meta_closed c = code_point CHR ''0''"
      by (auto simp add: encrypt_closed_def meta_closed_def)
    then show ?thesis
      by (simp add: decrypt_meta_closed_def code_point_def)
  qed
qed

text \<open>The alphabets as lists: length, position of a letter, letter at a position.\<close>

lemma length_ALPHA_LOWER: "length ALPHA_LOWER = 26"
  by (simp add: ALPHA_LOWER_def pystr_of_def)

lemma length_ALPHA_UPPER: "length ALPHA_UPPER = 26"
  by (simp add: ALPHA_UPPER_def pystr_of_def)

lemma first_position_ALPHA_LOWER:
  assumes "97 \<le> c" "c < 123"
  shows "first_position ALPHA_LOWER c = c - 97"
proof -
  have "first_position [97..<97 + 26] c = c - 97"
    by (rule first_position_upt) (use assms in simp_all)
  then show ?thesis by (simp only: ALPHA_LOWER_upt)
qed

lemma first_position_ALPHA_UPPER:
  assumes "65 \<le> c" "c < 91"
  shows "first_position ALPHA_UPPER c = c - 65"
proof -
  have "first_position [65..<65 + 26] c = c - 65"
    by (rule first_position_upt) (use assms in simp_all)
  then show ?thesis by (simp only: ALPHA_UPPER_upt)
qed

lemma nth_ALPHA_LOWER:
  assumes "i < 26"
  shows "ALPHA_LOWER ! i = 97 + i"
proof -
  have "[97..<97 + 26] ! i = 97 + i"
    by (rule nth_upt) (use assms in simp)
  then show ?thesis by (simp only: ALPHA_LOWER_upt)
qed

lemma nth_ALPHA_UPPER:
  assumes "i < 26"
  shows "ALPHA_UPPER ! i = 65 + i"
proof -
  have "[65..<65 + 26] ! i = 65 + i"
    by (rule nth_upt) (use assms in simp)
  then show ?thesis by (simp only: ALPHA_UPPER_upt)
qed

lemma ALPHA_LOWER_nth_rotate:
  assumes "97 \<le> c" "c < 123"
  shows "ALPHA_LOWER ! nat ((int (first_position ALPHA_LOWER c) + k) mod 26) = rotate 97 c k"
proof -
  have "nat ((int (c - 97) + k) mod 26) < 26" by (simp add: nat_less_iff)
  then show ?thesis
    using assms by (simp add: first_position_ALPHA_LOWER nth_ALPHA_LOWER rotate_def)
qed

lemma ALPHA_UPPER_nth_rotate:
  assumes "65 \<le> c" "c < 91"
  shows "ALPHA_UPPER ! nat ((int (first_position ALPHA_UPPER c) + k) mod 26) = rotate 65 c k"
proof -
  have "nat ((int (c - 65) + k) mod 26) < 26" by (simp add: nat_less_iff)
  then show ?thesis
    using assms by (simp add: first_position_ALPHA_UPPER nth_ALPHA_UPPER rotate_def)
qed

text \<open>Characters that are not ASCII letters are left alone by every closed form.\<close>

lemma not_letter_cases:
  assumes "\<not> (code_point CHR ''a'' \<le> c \<and> c \<le> code_point CHR ''z'')"
    and "\<not> (code_point CHR ''A'' \<le> c \<and> c \<le> code_point CHR ''Z'')"
  shows "c < 65 \<or> (91 \<le> c \<and> c < 97) \<or> 123 \<le> c"
proof -
  have "\<not> (97 \<le> c \<and> c \<le> 122)" "\<not> (65 \<le> c \<and> c \<le> 90)"
    using assms by (simp_all add: code_point_def)
  then show ?thesis by linarith
qed

lemma encrypt_closed_other:
  "c < 65 \<or> (91 \<le> c \<and> c < 97) \<or> 123 \<le> c \<Longrightarrow> encrypt_closed c s1 s2 = c"
  by (auto simp add: encrypt_closed_def)

lemma meta_closed_other:
  "c < 65 \<or> (91 \<le> c \<and> c < 97) \<or> 123 \<le> c \<Longrightarrow> meta_closed c = code_point CHR ''0''"
  by (auto simp add: meta_closed_def)

lemma decrypt_closed_other:
  "c < 65 \<or> (91 \<le> c \<and> c < 97) \<or> 123 \<le> c \<Longrightarrow> decrypt_closed c s1 s2 = c"
  by (auto simp add: decrypt_closed_def)

lemma decrypt_meta_closed_other:
  "c < 65 \<or> (91 \<le> c \<and> c < 97) \<or> 123 \<le> c \<Longrightarrow> decrypt_meta_closed s1 s2 (c, m) = c"
  by (auto simp add: decrypt_meta_closed_def shift_closed_def)

text \<open>The result of \<open>encrypt_char\<close> and of \<open>shift_char\<close> as a position of the alphabet.\<close>

lemma encrypt_char_alphabet:
  "(code_point CHR ''a'' \<le> c \<and> c \<le> code_point CHR ''m'' \<longrightarrow>
      encrypt_char db c shift1 shift2 =
        Inr (ALPHA_LOWER ! nat ((int (first_position ALPHA_LOWER c) + shift1 * shift2) mod 26))) \<and>
   (code_point CHR ''n'' \<le> c \<and> c \<le> code_point CHR ''z'' \<longrightarrow>
      encrypt_char db c shift1 shift2 =
        Inr (ALPHA_LOWER ! nat ((int (first_position ALPHA_LOWER c) - (shift1 + shift2)) mod 26))) \<and>
   (code_point CHR ''A'' \<le> c \<and> c \<le> code_point CHR ''M'' \<longrightarrow>
      encrypt_char db c shift1 shift2 =
        Inr (ALPHA_UPPER ! nat ((int (first_position ALPHA_UPPER c) - shift1) mod 26))) \<and>
   (code_point CHR ''N'' \<le> c \<and> c \<le> code_point CHR ''Z'' \<longrightarrow>
      encrypt_char db c shift1 shift2 =
        Inr (ALPHA_UPPER ! nat ((int (first_position ALPHA_UPPER c) + shift2 * shift2) mod 26))) \<and>
   (\<not> (code_point CHR ''a'' \<le> c \<and> c \<le> code_point CHR ''z'') \<and>
    \<not> (code_point CHR ''A'' \<le> c \<and> c \<le> code_point CHR ''Z'') \<longrightarrow>
      encrypt_char db c shift1 shift2 = Inr c)"
proof (intro conjI impI)
  assume "code_point CHR ''a'' \<le> c \<and> c \<le> code_point CHR ''m''"
  then have c: "97 \<le> c" "c < 110" by (simp_all add: code_point_def)
  then have e: "encrypt_char db c shift1 shift2 = Inr (rotate 97 c (shift1 * shift2))"
    by (simp add: encrypt_char_closed encrypt_closed_def)
  have n: "ALPHA_LOWER ! nat ((int (first_position ALPHA_LOWER c) + shift1 * shift2) mod 26) =
      rotate 97 c (shift1 * shift2)"
    by (rule ALPHA_LOWER_nth_rotate) (use c in simp_all)
  show "encrypt_char db c shift1 shift2 =
        Inr (ALPHA_LOWER ! nat ((int (first_position ALPHA_LOWER c) + shift1 * shift2) mod 26))"
    by (simp only: e n)
next
  assume "code_point CHR ''n'' \<le> c \<and> c \<le> code_point CHR ''z''"
  then have c: "110 \<le> c" "c < 123" by (simp_all add: code_point_def)
  then have e: "encrypt_char db c shift1 shift2 = Inr (rotate 97 c (- (shift1 + shift2)))"
    by (simp add: encrypt_char_closed encrypt_closed_def)
  have n: "ALPHA_LOWER ! nat ((int (first_position ALPHA_LOWER c) - (shift1 + shift2)) mod 26) =
      rotate 97 c (- (shift1 + shift2))"
    unfolding diff_conv_add_uminus [of "int (first_position ALPHA_LOWER c)" "shift1 + shift2"]
    by (rule ALPHA_LOWER_nth_rotate) (use c in simp_all)
  show "encrypt_char db c shift1 shift2 =
        Inr (ALPHA_LOWER ! nat ((int (first_position ALPHA_LOWER c) - (shift1 + shift2)) mod 26))"
    by (simp only: e n)
next
  assume "code_point CHR ''A'' \<le> c \<and> c \<le> code_point CHR ''M''"
  then have c: "65 \<le> c" "c < 78" by (simp_all add: code_point_def)
  then have e: "encrypt_char db c shift1 shift2 = Inr (rotate 65 c (- shift1))"
    by (simp add: encrypt_char_closed encrypt_closed_def)
  have n: "ALPHA_UPPER ! nat ((int (first_position ALPHA_UPPER c) - shift1) mod 26) =
      rotate 65 c (- shift1)"
    unfolding diff_conv_add_uminus [of "int (first_position ALPHA_UPPER c)" shift1]
    by (rule ALPHA_UPPER_nth_rotate) (use c in simp_all)
  show "encrypt_char db c shift1 shift2 =
        Inr (ALPHA_UPPER ! nat ((int (first_position ALPHA_UPPER c) - shift1) mod 26))"
    by (simp only: e n)
next
  assume "code_point CHR ''N'' \<le> c \<and> c \<le> code_point CHR ''Z''"
  then have c: "78 \<le> c" "c < 91" by (simp_all add: code_point_def)
  then have e: "encrypt_char db c shift1 shift2 = Inr (rotate 65 c (shift2 * shift2))"
    by (simp add: encrypt_char_closed encrypt_closed_def power2_eq_square)
  have n: "ALPHA_UPPER ! nat ((int (first_position ALPHA_UPPER c) + shift2 * shift2) mod 26) =
      rotate 65 c (shift2 * shift2)"
    by (rule ALPHA_UPPER_nth_rotate) (use c in simp_all)
  show "encrypt_char db c shift1 shift2 =
        Inr (ALPHA_UPPER ! nat ((int (first_position ALPHA_UPPER c) + shift2 * shift2) mod 26))"
    by (simp only: e n)
next
  assume "\<not> (code_point CHR ''a'' \<le> c \<and> c \<le> code_point CHR ''z'') \<and>
    \<not> (code_point CHR ''A'' \<le> c \<and> c \<le> code_point CHR ''Z'')"
  then have "\<not> (97 \<le> c \<and> c \<le> 122)" "\<not> (65 \<le> c \<and> c \<le> 90)"
    by (simp_all add: code_point_def)
  then have "c < 65 \<or> (91 \<le> c \<and> c < 97) \<or> 123 \<le> c"
    by linarith
  then show "encrypt_char db c shift1 shift2 = Inr c"
    by (auto simp add: encrypt_char_closed encrypt_closed_def)
qed

lemma shift_char_py_mod_lower:
  assumes "97 \<le> c" "c < 123"
  shows "py_mod (int (first_position ALPHA_LOWER c) + k) (int (length ALPHA_LOWER)) =
           Inr ((int (first_position ALPHA_LOWER c) + k) mod 26) \<and>
         shift_char c k ALPHA_LOWER =
           Inr (ALPHA_LOWER ! nat ((int (first_position ALPHA_LOWER c) + k) mod 26))"
  using assms by (simp add: py_mod_def length_ALPHA_LOWER shift_char_lower ALPHA_LOWER_nth_rotate)

lemma shift_char_py_mod_upper:
  assumes "65 \<le> c" "c < 91"
  shows "py_mod (int (first_position ALPHA_UPPER c) + k) (int (length ALPHA_UPPER)) =
           Inr ((int (first_position ALPHA_UPPER c) + k) mod 26) \<and>
         shift_char c k ALPHA_UPPER =
           Inr (ALPHA_UPPER ! nat ((int (first_position ALPHA_UPPER c) + k) mod 26))"
  using assms by (simp add: py_mod_def length_ALPHA_UPPER shift_char_upper ALPHA_UPPER_nth_rotate)

section \<open>Properties of the cipher\<close>

text \<open>
  Claim C1 (round trip in metadata mode). For every string, every pair of integer keys
  and every Unicode database, \<open>encrypt_text_with_meta\<close> returns a ciphertext and a
  metadata string, and \<open>decrypt_text_with_meta\<close> applied to them with the same keys
  returns the original string: the decoder with metadata is an exact left inverse of
  the encoder with metadata.
\<close>

theorem roundtrip_with_meta:
  "\<exists>ciphertext metadata.
     encrypt_text_with_meta db plaintext shift1 shift2 = Inr (ciphertext, metadata) \<and>
     decrypt_text_with_meta ciphertext metadata shift1 shift2 = Inr plaintext"
proof -
  let ?ct = "map (\<lambda>c. encrypt_closed c shift1 shift2) plaintext"
  let ?md = "map meta_closed plaintext"
  have "map (decrypt_meta_closed shift1 shift2) (zip ?ct ?md) = plaintext"
    by (induction plaintext) (simp_all add: decrypt_meta_encrypt_closed)
  then have "decrypt_text_with_meta ?ct ?md shift1 shift2 = Inr plaintext"
    by (simp add: decrypt_text_with_meta_closed)
  then show ?thesis
    by (simp add: encrypt_text_with_meta_closed)
qed

text \<open>
  Claim C5 (length preservation). For every string and all integer keys,
  \<open>encrypt_text\<close> returns a string of the length of its input, and
  \<open>encrypt_text_with_meta\<close> returns a ciphertext and a metadata string that both have
  the length of the input.
\<close>

theorem encrypt_preserves_length:
  "(\<exists>ciphertext. encrypt_text db plaintext shift1 shift2 = Inr ciphertext \<and>
      length ciphertext = length plaintext) \<and>
   (\<exists>ciphertext metadata.
      encrypt_text_with_meta db plaintext shift1 shift2 = Inr (ciphertext, metadata) \<and>
      length ciphertext = length plaintext \<and> length metadata = length plaintext)"
  by (simp add: encrypt_text_closed encrypt_text_with_meta_closed)

text \<open>
  Claim C8 (no dependency between characters). For all strings \<open>s\<close> and \<open>t\<close> and all
  integer keys, encrypting the concatenation \<open>s @ t\<close> gives the concatenation of the
  encryptions of \<open>s\<close> and of \<open>t\<close>; for \<open>encrypt_text_with_meta\<close> this holds of the
  ciphertext and of the metadata.
\<close>

theorem encrypt_distributes_over_append:
  "(\<exists>a b. encrypt_text db s k1 k2 = Inr a \<and> encrypt_text db t k1 k2 = Inr b \<and>
      encrypt_text db (s @ t) k1 k2 = Inr (a @ b)) \<and>
   (\<exists>a ma b mb.
      encrypt_text_with_meta db s k1 k2 = Inr (a, ma) \<and>
      encrypt_text_with_meta db t k1 k2 = Inr (b, mb) \<and>
      encrypt_text_with_meta db (s @ t) k1 k2 = Inr (a @ b, ma @ mb))"
  by (simp add: encrypt_text_closed encrypt_text_with_meta_closed)

text \<open>
  Claim C9 (the two encoders agree). For every string and all integer keys, the result
  of \<open>encrypt_text\<close> is the first component of the result of \<open>encrypt_text_with_meta\<close>.
\<close>

theorem encrypt_text_agrees_with_meta:
  "\<exists>ciphertext metadata.
     encrypt_text_with_meta db plaintext shift1 shift2 = Inr (ciphertext, metadata) \<and>
     encrypt_text db plaintext shift1 shift2 = Inr ciphertext"
  by (simp add: encrypt_text_closed encrypt_text_with_meta_closed)

text \<open>
  Claim C2 (the worked example), as the program has it. With keys 3 and 2, the
  letters \<open>e\<close>, \<open>l\<close>, \<open>l\<close> and \<open>d\<close> of \<open>Hello, World!\<close> lie in \<open>a\<close>--\<open>m\<close> and receive
  the code \<open>l\<close>; \<open>o\<close>, \<open>o\<close> and \<open>r\<close> lie in \<open>n\<close>--\<open>z\<close> and receive \<open>L\<close>; \<open>H\<close> receives \<open>u\<close>,
  \<open>W\<close> receives \<open>U\<close>, and the comma, the space and the exclamation mark receive \<open>0\<close>.
  The metadata string is \<open>ulllL00ULLll0\<close>, the ciphertext is \<open>Ekrrj, Ajmrj!\<close>, and
  decoding them with the same keys returns \<open>Hello, World!\<close>.
\<close>

theorem hello_world_example:
  "encrypt_text_with_meta db (pystr_of ''Hello, World!'') 3 2 =
     Inr (pystr_of ''Ekrrj, Ajmrj!'', pystr_of ''ulllL00ULLll0'') \<and>
   decrypt_text_with_meta (pystr_of ''Ekrrj, Ajmrj!'') (pystr_of ''ulllL00ULLll0'') 3 2 =
     Inr (pystr_of ''Hello, World!'')"
  by (simp add: encrypt_text_with_meta_closed decrypt_text_with_meta_closed pystr_of_def
      code_point_def encrypt_closed_def meta_closed_def decrypt_meta_closed_def
      shift_closed_def rotate_def)

text \<open>
  Claim C2 as stated gives the metadata string \<open>uLLLL00ULLLL0\<close>, which puts \<open>e\<close>, \<open>l\<close>
  and \<open>d\<close> in the second half of the alphabet. The program returns a different string.
\<close>

theorem hello_world_metadata_counterexample:
  "encrypt_text_with_meta ascii_db (pystr_of ''Hello, World!'') 3 2 =
     Inr (pystr_of ''Ekrrj, Ajmrj!'', pystr_of ''ulllL00ULLll0'') \<and>
   pystr_of ''ulllL00ULLll0'' \<noteq> pystr_of ''uLLLL00ULLLL0''"
  by (simp add: encrypt_text_with_meta_closed pystr_of_def
      code_point_def encrypt_closed_def meta_closed_def rotate_def)

text \<open>
  Claim C3 (length check). When ciphertext and metadata differ in length,
  \<open>decrypt_text_with_meta\<close> returns the length-mismatch error and no string; when the
  lengths agree it returns a string. In particular the call with \<open>ab\<close>, \<open>l\<close>, 3 and 4
  returns the error.
\<close>

theorem decrypt_with_meta_length_check:
  "(length ciphertext \<noteq> length metadata \<longrightarrow>
      decrypt_text_with_meta ciphertext metadata shift1 shift2 =
        Inl (ValueError ''Ciphertext and metadata lengths do not match'')) \<and>
   (length ciphertext = length metadata \<longrightarrow>
      (\<exists>r. decrypt_text_with_meta ciphertext metadata shift1 shift2 = Inr r)) \<and>
   decrypt_text_with_meta (pystr_of ''ab'') (pystr_of ''l'') 3 4 =
     Inl (ValueError ''Ciphertext and metadata lengths do not match'')"
  by (simp add: decrypt_text_with_meta_def decrypt_meta_loop_closed pystr_of_def)

theorem decrypt_with_meta_length_check_witness:
  "length (pystr_of ''ab'') \<noteq> length (pystr_of ''l'') \<and>
   decrypt_text_with_meta (pystr_of ''ab'') (pystr_of ''l'') 3 4 =
     Inl (ValueError ''Ciphertext and metadata lengths do not match'') \<and>
   length (pystr_of ''ab'') = length (pystr_of ''lL'') \<and>
   (\<exists>r. decrypt_text_with_meta (pystr_of ''ab'') (pystr_of ''lL'') 3 4 = Inr r)"
  using decrypt_with_meta_length_check [of "pystr_of ''ab''" "pystr_of ''l''" 3 4]
    decrypt_with_meta_length_check [of "pystr_of ''ab''" "pystr_of ''lL''" 3 4]
  by (simp add: pystr_of_def)

text \<open>
  Claim C10 (no metadata symbol is rejected). When the lengths agree,
  \<open>decrypt_text_with_meta\<close> returns a string of the length of the ciphertext, and at
  every position whose metadata character is none of \<open>l\<close>, \<open>L\<close>, \<open>u\<close>, \<open>U\<close> the result
  has the ciphertext character unchanged.
\<close>

theorem unknown_metadata_is_passthrough:
  assumes "length ciphertext = length metadata"
  shows "\<exists>r. decrypt_text_with_meta ciphertext metadata shift1 shift2 = Inr r \<and>
           length r = length ciphertext \<and>
           (\<forall>i < length ciphertext.
              metadata ! i \<noteq> code_point CHR ''l'' \<and> metadata ! i \<noteq> code_point CHR ''L'' \<and>
              metadata ! i \<noteq> code_point CHR ''u'' \<and> metadata ! i \<noteq> code_point CHR ''U'' \<longrightarrow>
              r ! i = ciphertext ! i)"
  using assms
  by (simp add: decrypt_text_with_meta_closed decrypt_meta_closed_def)

theorem unknown_metadata_is_passthrough_witness:
  "length (pystr_of ''abZ'') = length (pystr_of ''x0?'') \<and>
   decrypt_text_with_meta (pystr_of ''abZ'') (pystr_of ''x0?'') 3 2 = Inr (pystr_of ''abZ'')"
proof -
  have len: "length (pystr_of ''abZ'') = length (pystr_of ''x0?'')"
    by (simp add: pystr_of_def)
  obtain r where r: "decrypt_text_with_meta (pystr_of ''abZ'') (pystr_of ''x0?'') 3 2 = Inr r"
    and l: "length r = length (pystr_of ''abZ'')"
    and p: "\<forall>i < length (pystr_of ''abZ'').
              (pystr_of ''x0?'') ! i \<noteq> code_point CHR ''l'' \<and> (pystr_of ''x0?'') ! i \<noteq> code_point CHR ''L'' \<and>
              (pystr_of ''x0?'') ! i \<noteq> code_point CHR ''u'' \<and> (pystr_of ''x0?'') ! i \<noteq> code_point CHR ''U'' \<longrightarrow>
              r ! i = (pystr_of ''abZ'') ! i"
    using unknown_metadata_is_passthrough [OF len, of 3 2] by blast
  have "r ! 0 = pystr_of ''abZ'' ! 0" "r ! 1 = pystr_of ''abZ'' ! 1" "r ! 2 = pystr_of ''abZ'' ! 2"
    using p by (simp_all add: pystr_of_def code_point_def)
  then have "r = pystr_of ''abZ''"
    using l by (simp add: pystr_of_def list_eq_iff_nth_eq less_Suc_eq numeral_3_eq_3 numeral_2_eq_2)
  with r len show ?thesis by simp
qed

text \<open>
  Claim C4 (the shift of each category). At every position of the input, \<open>encrypt_text\<close>
  and \<open>encrypt_text_with_meta\<close> put the character that \<open>encrypt_char\<close> returns for the
  character at that position, and this character is: for a letter in \<open>a\<close>--\<open>m\<close>, the
  letter of the lowercase alphabet at position \<open>(index + shift1 * shift2) mod 26\<close>; for a
  letter in \<open>n\<close>--\<open>z\<close>, the one at position \<open>(index - (shift1 + shift2)) mod 26\<close>; for a
  letter in \<open>A\<close>--\<open>M\<close>, the letter of the uppercase alphabet at position
  \<open>(index - shift1) mod 26\<close>; for a letter in \<open>N\<close>--\<open>Z\<close>, the one at position
  \<open>(index + shift2 * shift2) mod 26\<close>; and every other character itself. Here \<open>index\<close> is
  the position of the letter in its alphabet. For every integer shift, the operation
  \<open>%\<close> of \<open>_shift_char\<close> on a letter of the alphabet returns \<open>(index + shift) mod 26\<close>,
  a value in \<open>[0, 26)\<close>, and \<open>_shift_char\<close> returns the letter at that position.
\<close>

theorem encrypt_char_shift:
  assumes "i < length s"
  shows "(\<exists>r e ct md.
      encrypt_char db (s ! i) shift1 shift2 = Inr r \<and>
      encrypt_text db s shift1 shift2 = Inr e \<and> e ! i = r \<and>
      encrypt_text_with_meta db s shift1 shift2 = Inr (ct, md) \<and> ct ! i = r \<and>
      (code_point CHR ''a'' \<le> s ! i \<and> s ! i \<le> code_point CHR ''m'' \<longrightarrow>
         r = ALPHA_LOWER !
               nat ((int (first_position ALPHA_LOWER (s ! i)) + shift1 * shift2) mod 26)) \<and>
      (code_point CHR ''n'' \<le> s ! i \<and> s ! i \<le> code_point CHR ''z'' \<longrightarrow>
         r = ALPHA_LOWER !
               nat ((int (first_position ALPHA_LOWER (s ! i)) - (shift1 + shift2)) mod 26)) \<and>
      (code_point CHR ''A'' \<le> s ! i \<and> s ! i \<le> code_point CHR ''M'' \<longrightarrow>
         r = ALPHA_UPPER ! nat ((int (first_position ALPHA_UPPER (s ! i)) - shift1) mod 26)) \<and>
      (code_point CHR ''N'' \<le> s ! i \<and> s ! i \<le> code_point CHR ''Z'' \<longrightarrow>
         r = ALPHA_UPPER !
               nat ((int (first_position ALPHA_UPPER (s ! i)) + shift2 * shift2) mod 26)) \<and>
      (\<not> (code_point CHR ''a'' \<le> s ! i \<and> s ! i \<le> code_point CHR ''z'') \<and>
       \<not> (code_point CHR ''A'' \<le> s ! i \<and> s ! i \<le> code_point CHR ''Z'') \<longrightarrow>
         r = s ! i)) \<and>
    (\<forall>shift. code_point CHR ''a'' \<le> s ! i \<and> s ! i \<le> code_point CHR ''z'' \<longrightarrow>
      (\<exists>m. py_mod (int (first_position ALPHA_LOWER (s ! i)) + shift)
              (int (length ALPHA_LOWER)) = Inr m \<and>
           m = (int (first_position ALPHA_LOWER (s ! i)) + shift) mod 26 \<and>
           0 \<le> m \<and> m < 26 \<and>
           shift_char (s ! i) shift ALPHA_LOWER = Inr (ALPHA_LOWER ! nat m))) \<and>
    (\<forall>shift. code_point CHR ''A'' \<le> s ! i \<and> s ! i \<le> code_point CHR ''Z'' \<longrightarrow>
      (\<exists>m. py_mod (int (first_position ALPHA_UPPER (s ! i)) + shift)
              (int (length ALPHA_UPPER)) = Inr m \<and>
           m = (int (first_position ALPHA_UPPER (s ! i)) + shift) mod 26 \<and>
           0 \<le> m \<and> m < 26 \<and>
           shift_char (s ! i) shift ALPHA_UPPER = Inr (ALPHA_UPPER ! nat m)))"
proof (intro conjI allI impI)
  let ?r = "encrypt_closed (s ! i) shift1 shift2"
  have rc: "encrypt_char db (s ! i) shift1 shift2 = Inr ?r"
    by (rule encrypt_char_closed)
  note cat = encrypt_char_alphabet [of "s ! i" db shift1 shift2, unfolded rc]
  show "\<exists>r e ct md.
      encrypt_char db (s ! i) shift1 shift2 = Inr r \<and>
      encrypt_text db s shift1 shift2 = Inr e \<and> e ! i = r \<and>
      encrypt_text_with_meta db s shift1 shift2 = Inr (ct, md) \<and> ct ! i = r \<and>
      (code_point CHR ''a'' \<le> s ! i \<and> s ! i \<le> code_point CHR ''m'' \<longrightarrow>
         r = ALPHA_LOWER !
               nat ((int (first_position ALPHA_LOWER (s ! i)) + shift1 * shift2) mod 26)) \<and>
      (code_point CHR ''n'' \<le> s ! i \<and> s ! i \<le> code_point CHR ''z'' \<longrightarrow>
         r = ALPHA_LOWER !
               nat ((int (first_position ALPHA_LOWER (s ! i)) - (shift1 + shift2)) mod 26)) \<and>
      (code_point CHR ''A'' \<le> s ! i \<and> s ! i \<le> code_point CHR ''M'' \<longrightarrow>
         r = ALPHA_UPPER ! nat ((int (first_position ALPHA_UPPER (s ! i)) - shift1) mod 26)) \<and>
      (code_point CHR ''N'' \<le> s ! i \<and> s ! i \<le> code_point CHR ''Z'' \<longrightarrow>
         r = ALPHA_UPPER !
               nat ((int (first_position ALPHA_UPPER (s ! i)) + shift2 * shift2) mod 26)) \<and>
      (\<not> (code_point CHR ''a'' \<le> s ! i \<and> s ! i \<le> code_point CHR ''z'') \<and>
       \<not> (code_point CHR ''A'' \<le> s ! i \<and> s ! i \<le> code_point CHR ''Z'') \<longrightarrow>
         r = s ! i)"
    using cat assms
    by (simp add: rc encrypt_text_closed encrypt_text_with_meta_closed)
next
  fix shift
  assume "code_point CHR ''a'' \<le> s ! i \<and> s ! i \<le> code_point CHR ''z''"
  then have c: "97 \<le> s ! i" "s ! i < 123" by (simp_all add: code_point_def)
  show "\<exists>m. py_mod (int (first_position ALPHA_LOWER (s ! i)) + shift)
              (int (length ALPHA_LOWER)) = Inr m \<and>
           m = (int (first_position ALPHA_LOWER (s ! i)) + shift) mod 26 \<and>
           0 \<le> m \<and> m < 26 \<and>
           shift_char (s ! i) shift ALPHA_LOWER = Inr (ALPHA_LOWER ! nat m)"
    using shift_char_py_mod_lower [OF c, of shift] by simp
next
  fix shift
  assume "code_point CHR ''A'' \<le> s ! i \<and> s ! i \<le> code_point CHR ''Z''"
  then have c: "65 \<le> s ! i" "s ! i < 91" by (simp_all add: code_point_def)
  show "\<exists>m. py_mod (int (first_position ALPHA_UPPER (s ! i)) + shift)
              (int (length ALPHA_UPPER)) = Inr m \<and>
           m = (int (first_position ALPHA_UPPER (s ! i)) + shift) mod 26 \<and>
           0 \<le> m \<and> m < 26 \<and>
           shift_char (s ! i) shift ALPHA_UPPER = Inr (ALPHA_UPPER ! nat m)"
    using shift_char_py_mod_upper [OF c, of shift] by simp
qed

theorem encrypt_char_shift_witness:
  "(\<exists>e ct md.
      encrypt_char ascii_db (pystr_of ''eoHW!'' ! 0) (- 30) 7 = Inr (code_point CHR ''c'') \<and>
      encrypt_text ascii_db (pystr_of ''eoHW!'') (- 30) 7 = Inr e \<and>
      e ! 0 = code_point CHR ''c'' \<and>
      encrypt_text_with_meta ascii_db (pystr_of ''eoHW!'') (- 30) 7 = Inr (ct, md) \<and>
      ct ! 0 = code_point CHR ''c'') \<and>
   (\<exists>e ct md.
      encrypt_char ascii_db (pystr_of ''eoHW!'' ! 1) (- 30) 7 = Inr (code_point CHR ''l'') \<and>
      encrypt_text ascii_db (pystr_of ''eoHW!'') (- 30) 7 = Inr e \<and>
      e ! 1 = code_point CHR ''l'' \<and>
      encrypt_text_with_meta ascii_db (pystr_of ''eoHW!'') (- 30) 7 = Inr (ct, md) \<and>
      ct ! 1 = code_point CHR ''l'') \<and>
   (\<exists>e ct md.
      encrypt_char ascii_db (pystr_of ''eoHW!'' ! 2) (- 30) 7 = Inr (code_point CHR ''L'') \<and>
      encrypt_text ascii_db (pystr_of ''eoHW!'') (- 30) 7 = Inr e \<and>
      e ! 2 = code_point CHR ''L'' \<and>
      encrypt_text_with_meta ascii_db (pystr_of ''eoHW!'') (- 30) 7 = Inr (ct, md) \<and>
      ct ! 2 = code_point CHR ''L'') \<and>
   (\<exists>e ct md.
      encrypt_char ascii_db (pystr_of ''eoHW!'' ! 3) (- 30) 7 = Inr (code_point CHR ''T'') \<and>
      encrypt_text ascii_db (pystr_of ''eoHW!'') (- 30) 7 = Inr e \<and>
      e ! 3 = code_point CHR ''T'' \<and>
      encrypt_text_with_meta ascii_db (pystr_of ''eoHW!'') (- 30) 7 = Inr (ct, md) \<and>
      ct ! 3 = code_point CHR ''T'') \<and>
   (\<exists>e ct md.
      encrypt_char ascii_db (pystr_of ''eoHW!'' ! 4) (- 30) 7 = Inr (code_point CHR ''!'') \<and>
      encrypt_text ascii_db (pystr_of ''eoHW!'') (- 30) 7 = Inr e \<and>
      e ! 4 = code_point CHR ''!'' \<and>
      encrypt_text_with_meta ascii_db (pystr_of ''eoHW!'') (- 30) 7 = Inr (ct, md) \<and>
      ct ! 4 = code_point CHR ''!'') \<and>
   py_mod (int (first_position ALPHA_LOWER (code_point CHR ''e'')) + - 210)
     (int (length ALPHA_LOWER)) = Inr 2 \<and>
   shift_char (code_point CHR ''e'') (- 210) ALPHA_LOWER = Inr (code_point CHR ''c'')"
proof -
  note a = first_position_ALPHA_LOWER nth_ALPHA_LOWER
  note b = first_position_ALPHA_UPPER nth_ALPHA_UPPER
  have len: "0 < length (pystr_of ''eoHW!'')" "1 < length (pystr_of ''eoHW!'')"
    "2 < length (pystr_of ''eoHW!'')" "3 < length (pystr_of ''eoHW!'')"
    "4 < length (pystr_of ''eoHW!'')"
    by (simp_all add: pystr_of_def)
  note t = encrypt_char_shift [where db = ascii_db and ?shift1.0 = "- 30" and ?shift2.0 = 7]
  have p0: "\<exists>e ct md.
      encrypt_char ascii_db (pystr_of ''eoHW!'' ! 0) (- 30) 7 = Inr (code_point CHR ''c'') \<and>
      encrypt_text ascii_db (pystr_of ''eoHW!'') (- 30) 7 = Inr e \<and>
      e ! 0 = code_point CHR ''c'' \<and>
      encrypt_text_with_meta ascii_db (pystr_of ''eoHW!'') (- 30) 7 = Inr (ct, md) \<and>
      ct ! 0 = code_point CHR ''c''"
    using t [OF len(1), THEN conjunct1]
    by (auto simp add: pystr_of_def code_point_def a b)
  have p1: "\<exists>e ct md.
      encrypt_char ascii_db (pystr_of ''eoHW!'' ! 1) (- 30) 7 = Inr (code_point CHR ''l'') \<and>
      encrypt_text ascii_db (pystr_of ''eoHW!'') (- 30) 7 = Inr e \<and>
      e ! 1 = code_point CHR ''l'' \<and>
      encrypt_text_with_meta ascii_db (pystr_of ''eoHW!'') (- 30) 7 = Inr (ct, md) \<and>
      ct ! 1 = code_point CHR ''l''"
    using t [OF len(2), THEN conjunct1]
    by (auto simp add: pystr_of_def code_point_def a b)
  have p2: "\<exists>e ct md.
      encrypt_char ascii_db (pystr_of ''eoHW!'' ! 2) (- 30) 7 = Inr (code_point CHR ''L'') \<and>
      encrypt_text ascii_db (pystr_of ''eoHW!'') (- 30) 7 = Inr e \<and>
      e ! 2 = code_point CHR ''L'' \<and>
      encrypt_text_with_meta ascii_db (pystr_of ''eoHW!'') (- 30) 7 = Inr (ct, md) \<and>
      ct ! 2 = code_point CHR ''L''"
    using t [OF len(3), THEN conjunct1]
    by (auto simp add: pystr_of_def code_point_def a b)
  have p3: "\<exists>e ct md.
      encrypt_char ascii_db (pystr_of ''eoHW!'' ! 3) (- 30) 7 = Inr (code_point CHR ''T'') \<and>
      encrypt_text ascii_db (pystr_of ''eoHW!'') (- 30) 7 = Inr e \<and>
      e ! 3 = code_point CHR ''T'' \<and>
      encrypt_text_with_meta ascii_db (pystr_of ''eoHW!'') (- 30) 7 = Inr (ct, md) \<and>
      ct ! 3 = code_point CHR ''T''"
    using t [OF len(4), THEN conjunct1]
    by (auto simp add: pystr_of_def code_point_def a b)
  have p4: "\<exists>e ct md.
      encrypt_char ascii_db (pystr_of ''eoHW!'' ! 4) (- 30) 7 = Inr (code_point CHR ''!'') \<and>
      encrypt_text ascii_db (pystr_of ''eoHW!'') (- 30) 7 = Inr e \<and>
      e ! 4 = code_point CHR ''!'' \<and>
      encrypt_text_with_meta ascii_db (pystr_of ''eoHW!'') (- 30) 7 = Inr (ct, md) \<and>
      ct ! 4 = code_point CHR ''!''"
    using t [OF len(5), THEN conjunct1]
    by (auto simp add: pystr_of_def code_point_def a b)
  have m: "py_mod (int (first_position ALPHA_LOWER (code_point CHR ''e'')) + - 210)
      (int (length ALPHA_LOWER)) = Inr 2 \<and>
    shift_char (code_point CHR ''e'') (- 210) ALPHA_LOWER = Inr (code_point CHR ''c'')"
    using t [OF len(1), THEN conjunct2, THEN conjunct1, rule_format, of "- 210"]
    by (simp add: pystr_of_def code_point_def a)
  from p0 p1 p2 p3 p4 m show ?thesis by blast
qed

text \<open>
  Claim C6 (decoding without metadata). \<open>decrypt_text\<close> never fails and decodes each
  character on its own by \<open>decrypt_char\<close>. For a lowercase letter, \<open>decrypt_char\<close>
  computes the candidate at position \<open>(index - shift1 * shift2) mod 26\<close> of the lowercase
  alphabet and returns it when it lies in \<open>a\<close>--\<open>m\<close>; otherwise it returns the letter at
  position \<open>(index + (shift1 + shift2)) mod 26\<close>, with no further test. For an uppercase
  letter the candidate is at position \<open>(index + shift1) mod 26\<close> of the uppercase
  alphabet, the test is membership in \<open>A\<close>--\<open>M\<close>, and the fallback is the letter at
  position \<open>(index - shift2 * shift2) mod 26\<close>. Every other character is returned
  unchanged.
\<close>

theorem decrypt_heuristic:
  "(\<exists>r. decrypt_text db ciphertext shift1 shift2 = Inr r \<and> length r = length ciphertext \<and>
      (\<forall>i < length ciphertext. decrypt_char db (ciphertext ! i) shift1 shift2 = Inr (r ! i))) \<and>
   (code_point CHR ''a'' \<le> c \<and> c \<le> code_point CHR ''z'' \<longrightarrow>
      (\<exists>cand1 cand2.
         shift_char c (- (shift1 * shift2)) ALPHA_LOWER = Inr cand1 \<and>
         cand1 = ALPHA_LOWER ! nat ((int (first_position ALPHA_LOWER c) - shift1 * shift2) mod 26) \<and>
         shift_char c (shift1 + shift2) ALPHA_LOWER = Inr cand2 \<and>
         cand2 = ALPHA_LOWER ! nat ((int (first_position ALPHA_LOWER c) + (shift1 + shift2)) mod 26) \<and>
         decrypt_char db c shift1 shift2 =
           Inr (if code_point CHR ''a'' \<le> cand1 \<and> cand1 \<le> code_point CHR ''m''
                then cand1 else cand2))) \<and>
   (code_point CHR ''A'' \<le> c \<and> c \<le> code_point CHR ''Z'' \<longrightarrow>
      (\<exists>cand1 cand2.
         shift_char c shift1 ALPHA_UPPER = Inr cand1 \<and>
         cand1 = ALPHA_UPPER ! nat ((int (first_position ALPHA_UPPER c) + shift1) mod 26) \<and>
         shift_char c (- (shift2 ^ 2)) ALPHA_UPPER = Inr cand2 \<and>
         cand2 = ALPHA_UPPER ! nat ((int (first_position ALPHA_UPPER c) - shift2 * shift2) mod 26) \<and>
         decrypt_char db c shift1 shift2 =
           Inr (if code_point CHR ''A'' \<le> cand1 \<and> cand1 \<le> code_point CHR ''M''
                then cand1 else cand2))) \<and>
   (\<not> (code_point CHR ''a'' \<le> c \<and> c \<le> code_point CHR ''z'') \<and>
    \<not> (code_point CHR ''A'' \<le> c \<and> c \<le> code_point CHR ''Z'') \<longrightarrow>
      decrypt_char db c shift1 shift2 = Inr c)"
proof (intro conjI impI)
  show "\<exists>r. decrypt_text db ciphertext shift1 shift2 = Inr r \<and> length r = length ciphertext \<and>
      (\<forall>i < length ciphertext. decrypt_char db (ciphertext ! i) shift1 shift2 = Inr (r ! i))"
    by (simp add: decrypt_text_closed decrypt_char_closed)
next
  assume "code_point CHR ''a'' \<le> c \<and> c \<le> code_point CHR ''z''"
  then have c: "97 \<le> c" "c < 123" by (simp_all add: code_point_def)
  let ?c1 = "rotate 97 c (- (shift1 * shift2))" and ?c2 = "rotate 97 c (shift1 + shift2)"
  have s1: "shift_char c (- (shift1 * shift2)) ALPHA_LOWER = Inr ?c1"
    and s2: "shift_char c (shift1 + shift2) ALPHA_LOWER = Inr ?c2"
    using c by (simp_all add: shift_char_lower)
  have n1: "?c1 = ALPHA_LOWER ! nat ((int (first_position ALPHA_LOWER c) - shift1 * shift2) mod 26)"
    unfolding diff_conv_add_uminus [of "int (first_position ALPHA_LOWER c)" "shift1 * shift2"]
    by (rule ALPHA_LOWER_nth_rotate [symmetric]) (use c in simp_all)
  have n2: "?c2 = ALPHA_LOWER ! nat ((int (first_position ALPHA_LOWER c) + (shift1 + shift2)) mod 26)"
    by (rule ALPHA_LOWER_nth_rotate [symmetric]) (use c in simp_all)
  have "97 \<le> ?c1" using rotate_range [of 97 c "- (shift1 * shift2)"] by simp
  then have d: "decrypt_char db c shift1 shift2 =
      Inr (if code_point CHR ''a'' \<le> ?c1 \<and> ?c1 \<le> code_point CHR ''m'' then ?c1 else ?c2)"
    using c by (auto simp add: decrypt_char_closed decrypt_closed_def code_point_def)
  show "\<exists>cand1 cand2.
         shift_char c (- (shift1 * shift2)) ALPHA_LOWER = Inr cand1 \<and>
         cand1 = ALPHA_LOWER ! nat ((int (first_position ALPHA_LOWER c) - shift1 * shift2) mod 26) \<and>
         shift_char c (shift1 + shift2) ALPHA_LOWER = Inr cand2 \<and>
         cand2 = ALPHA_LOWER ! nat ((int (first_position ALPHA_LOWER c) + (shift1 + shift2)) mod 26) \<and>
         decrypt_char db c shift1 shift2 =
           Inr (if code_point CHR ''a'' \<le> cand1 \<and> cand1 \<le> code_point CHR ''m''
                then cand1 else cand2)"
    using s1 n1 s2 n2 d by blast
next
  assume "code_point CHR ''A'' \<le> c \<and> c \<le> code_point CHR ''Z''"
  then have c: "65 \<le> c" "c < 91" by (simp_all add: code_point_def)
  let ?c1 = "rotate 65 c shift1" and ?c2 = "rotate 65 c (- (shift2 ^ 2))"
  have s1: "shift_char c shift1 ALPHA_UPPER = Inr ?c1"
    and s2: "shift_char c (- (shift2 ^ 2)) ALPHA_UPPER = Inr ?c2"
    using c by (simp_all add: shift_char_upper)
  have n1: "?c1 = ALPHA_UPPER ! nat ((int (first_position ALPHA_UPPER c) + shift1) mod 26)"
    by (rule ALPHA_UPPER_nth_rotate [symmetric]) (use c in simp_all)
  have n2: "?c2 = ALPHA_UPPER ! nat ((int (first_position ALPHA_UPPER c) - shift2 * shift2) mod 26)"
    unfolding diff_conv_add_uminus [of "int (first_position ALPHA_UPPER c)" "shift2 * shift2"]
      power2_eq_square
    by (rule ALPHA_UPPER_nth_rotate [symmetric]) (use c in simp_all)
  have "65 \<le> ?c1" using rotate_range [of 65 c shift1] by simp
  then have d: "decrypt_char db c shift1 shift2 =
      Inr (if code_point CHR ''A'' \<le> ?c1 \<and> ?c1 \<le> code_point CHR ''M'' then ?c1 else ?c2)"
    using c by (auto simp add: decrypt_char_closed decrypt_closed_def code_point_def)
  show "\<exists>cand1 cand2.
         shift_char c shift1 ALPHA_UPPER = Inr cand1 \<and>
         cand1 = ALPHA_UPPER ! nat ((int (first_position ALPHA_UPPER c) + shift1) mod 26) \<and>
         shift_char c (- (shift2 ^ 2)) ALPHA_UPPER = Inr cand2 \<and>
         cand2 = ALPHA_UPPER ! nat ((int (first_position ALPHA_UPPER c) - shift2 * shift2) mod 26) \<and>
         decrypt_char db c shift1 shift2 =
           Inr (if code_point CHR ''A'' \<le> cand1 \<and> cand1 \<le> code_point CHR ''M''
                then cand1 else cand2)"
    using s1 n1 s2 n2 d by blast
next
  assume "\<not> (code_point CHR ''a'' \<le> c \<and> c \<le> code_point CHR ''z'') \<and>
    \<not> (code_point CHR ''A'' \<le> c \<and> c \<le> code_point CHR ''Z'')"
  then have "c < 65 \<or> (91 \<le> c \<and> c < 97) \<or> 123 \<le> c"
    using not_letter_cases by blast
  then show "decrypt_char db c shift1 shift2 = Inr c"
    by (simp add: decrypt_char_closed decrypt_closed_other)
qed

theorem decrypt_heuristic_witness:
  "decrypt_char ascii_db (code_point CHR ''k'') 3 2 = Inr (code_point CHR ''e'') \<and>
   decrypt_char ascii_db (code_point CHR ''v'') 3 2 = Inr (code_point CHR ''a'') \<and>
   decrypt_char ascii_db (code_point CHR ''A'') 3 2 = Inr (code_point CHR ''D'') \<and>
   decrypt_char ascii_db (code_point CHR ''M'') 3 2 = Inr (code_point CHR ''I'') \<and>
   decrypt_char ascii_db (code_point CHR '','') 3 2 = Inr (code_point CHR '','') \<and>
   decrypt_text ascii_db (pystr_of ''kM'') 3 2 = Inr (pystr_of ''eI'')"
proof -
  note t = decrypt_heuristic [where db = ascii_db and ?shift1.0 = 3 and ?shift2.0 = 2]
  note a = first_position_ALPHA_LOWER nth_ALPHA_LOWER
  note b = first_position_ALPHA_UPPER nth_ALPHA_UPPER
  have k: "decrypt_char ascii_db (code_point CHR ''k'') 3 2 = Inr (code_point CHR ''e'')"
    using t [of _ "code_point CHR ''k''", THEN conjunct2, THEN conjunct1]
    by (simp add: code_point_def a)
  have v: "decrypt_char ascii_db (code_point CHR ''v'') 3 2 = Inr (code_point CHR ''a'')"
    using t [of _ "code_point CHR ''v''", THEN conjunct2, THEN conjunct1]
    by (simp add: code_point_def a)
  have A: "decrypt_char ascii_db (code_point CHR ''A'') 3 2 = Inr (code_point CHR ''D'')"
    using t [of _ "code_point CHR ''A''", THEN conjunct2, THEN conjunct2, THEN conjunct1]
    by (simp add: code_point_def b)
  have M: "decrypt_char ascii_db (code_point CHR ''M'') 3 2 = Inr (code_point CHR ''I'')"
    using t [of _ "code_point CHR ''M''", THEN conjunct2, THEN conjunct2, THEN conjunct1]
    by (simp add: code_point_def b)
  have comma: "decrypt_char ascii_db (code_point CHR '','') 3 2 = Inr (code_point CHR '','')"
    using t [of _ "code_point CHR '',''", THEN conjunct2, THEN conjunct2, THEN conjunct2]
    by (simp add: code_point_def)
  obtain r where r: "decrypt_text ascii_db (pystr_of ''kM'') 3 2 = Inr r"
    and l: "length r = length (pystr_of ''kM'')"
    and p: "\<forall>i < length (pystr_of ''kM'').
        decrypt_char ascii_db (pystr_of ''kM'' ! i) 3 2 = Inr (r ! i)"
    using t [of "pystr_of ''kM''", THEN conjunct1] by blast
  have "decrypt_char ascii_db (pystr_of ''kM'' ! 0) 3 2 = Inr (r ! 0)"
    and "decrypt_char ascii_db (pystr_of ''kM'' ! 1) 3 2 = Inr (r ! 1)"
    using p [rule_format, of 0] p [rule_format, of 1] by (simp_all add: pystr_of_def)
  then have "r ! 0 = code_point CHR ''e''" "r ! 1 = code_point CHR ''I''"
    using k M by (simp_all add: pystr_of_def)
  then have "r = pystr_of ''eI''"
    using l by (simp add: pystr_of_def list_eq_iff_nth_eq less_Suc_eq numeral_2_eq_2)
  with r k v A M comma show ?thesis by simp
qed

text \<open>
  Claim C7 (fixed points). A character that is neither an ASCII lowercase nor an ASCII
  uppercase letter, at any position of any string and for all integer keys and every
  Unicode database, is returned unchanged at that position by \<open>encrypt_text\<close>,
  \<open>encrypt_text_with_meta\<close>, \<open>decrypt_text\<close> and (whatever the metadata of the right
  length) \<open>decrypt_text_with_meta\<close>, and \<open>encrypt_text_with_meta\<close> gives it the
  metadata code \<open>0\<close>.
\<close>

theorem passthrough_fixed_points:
  assumes "i < length s"
    and "\<not> (code_point CHR ''a'' \<le> s ! i \<and> s ! i \<le> code_point CHR ''z'')"
    and "\<not> (code_point CHR ''A'' \<le> s ! i \<and> s ! i \<le> code_point CHR ''Z'')"
  shows "encrypt_char db (s ! i) k1 k2 = Inr (s ! i) \<and>
         decrypt_char db (s ! i) k1 k2 = Inr (s ! i) \<and>
         (\<exists>e. encrypt_text db s k1 k2 = Inr e \<and> e ! i = s ! i) \<and>
         (\<exists>e md. encrypt_text_with_meta db s k1 k2 = Inr (e, md) \<and> e ! i = s ! i \<and>
            md ! i = code_point CHR ''0'') \<and>
         (\<exists>d. decrypt_text db s k1 k2 = Inr d \<and> d ! i = s ! i) \<and>
         (\<forall>metadata. length metadata = length s \<longrightarrow>
            (\<exists>d. decrypt_text_with_meta s metadata k1 k2 = Inr d \<and> d ! i = s ! i))"
proof -
  have c: "s ! i < 65 \<or> (91 \<le> s ! i \<and> s ! i < 97) \<or> 123 \<le> s ! i"
    using assms(2,3) by (rule not_letter_cases)
  have "encrypt_char db (s ! i) k1 k2 = Inr (s ! i)"
    by (simp add: encrypt_char_closed encrypt_closed_other [OF c])
  moreover have "decrypt_char db (s ! i) k1 k2 = Inr (s ! i)"
    by (simp add: decrypt_char_closed decrypt_closed_other [OF c])
  moreover have "\<exists>e. encrypt_text db s k1 k2 = Inr e \<and> e ! i = s ! i"
    using assms(1) by (simp add: encrypt_text_closed encrypt_closed_other [OF c])
  moreover have "\<exists>e md. encrypt_text_with_meta db s k1 k2 = Inr (e, md) \<and> e ! i = s ! i \<and>
            md ! i = code_point CHR ''0''"
    using assms(1)
    by (simp add: encrypt_text_with_meta_closed encrypt_closed_other [OF c]
        meta_closed_other [OF c])
  moreover have "\<exists>d. decrypt_text db s k1 k2 = Inr d \<and> d ! i = s ! i"
    using assms(1) by (simp add: decrypt_text_closed decrypt_closed_other [OF c])
  moreover have "\<forall>metadata. length metadata = length s \<longrightarrow>
            (\<exists>d. decrypt_text_with_meta s metadata k1 k2 = Inr d \<and> d ! i = s ! i)"
    using assms(1)
    by (simp add: decrypt_text_with_meta_closed decrypt_meta_closed_other [OF c])
  ultimately show ?thesis by blast
qed

theorem passthrough_fixed_points_witness:
  "encrypt_text latin1_db [97, 49, 233] 3 2 = Inr [103, 49, 233] \<and>
   (\<exists>e md. encrypt_text_with_meta latin1_db [97, 49, 233] 3 2 = Inr (e, md) \<and>
      e ! 2 = 233 \<and> md ! 2 = code_point CHR ''0'') \<and>
   (\<exists>d. decrypt_text latin1_db [97, 49, 233] 3 2 = Inr d \<and> d ! 2 = 233) \<and>
   (\<exists>d. decrypt_text_with_meta [97, 49, 233] (pystr_of ''lLu'') 3 2 = Inr d \<and> d ! 2 = 233)"
proof -
  have h: "2 < length [97, 49, 233 :: pychar]"
    "\<not> (code_point CHR ''a'' \<le> [97, 49, 233] ! 2 \<and> [97, 49, 233] ! 2 \<le> code_point CHR ''z'')"
    "\<not> (code_point CHR ''A'' \<le> [97, 49, 233] ! 2 \<and> [97, 49, 233] ! 2 \<le> code_point CHR ''Z'')"
    by (simp_all add: code_point_def)
  note t = passthrough_fixed_points [OF h, of latin1_db 3 2]
  have "encrypt_text latin1_db [97, 49, 233] 3 2 = Inr [103, 49, 233]"
    by (simp add: encrypt_text_closed encrypt_closed_def rotate_def)
  moreover have "length (pystr_of ''lLu'') = length [97, 49, 233 :: pychar]"
    by (simp add: pystr_of_def)
  ultimately show ?thesis using t by simp
qed

end
